theory Spec2Isabelle
  imports Main
begin

section \<open>Data model\<close>

text \<open>
  A Python exception that derives from \<open>Exception\<close>: the name of its class and its
  message. Asynchronous interrupts (\<open>KeyboardInterrupt\<close>, \<open>SystemExit\<close>) are not
  errors of a pipeline stage and are outside the model.
\<close>

datatype exn = Exn string string

text \<open>
  The video object the client library returns. \<open>status\<close> is a plain string, as in the
  source. The optional attributes \<open>error\<close> and \<open>failure_reason\<close> are \<open>None\<close> when
  the attribute is absent or is Python's \<open>None\<close>.
\<close>

record video =
  idv :: string
  status :: string
  model :: string
  created_at :: int
  error :: "string option"
  failure_reason :: "string option"

text \<open>
  Everything the script does to the outside, in the order it happens. \<open>Print l\<close> is
  the \<open>print\<close> call at line \<open>l\<close> of the script; the text printed (which includes
  the elapsed seconds read from the clock) is console output and is not modelled.
\<close>

datatype event =
    Print nat
  | Create string string string string
  | Retrieve string
  | Sleep nat
  | PathExists string
  | MakeDirs string
  | DownloadContent string string
  | WriteToFile string
  | GetSize string

type_synonym history = "event list"

text \<open>
  The collaborators: the remote service behind \<open>client.videos\<close>, the local file
  system, the client library and the console. \<open>videos_retrieve w k video_id\<close> is the
  answer to the \<open>k\<close>-th call (counting from 0) of \<open>client.videos.retrieve\<close> in this
  process; \<open>Inl\<close> is a raised exception. \<open>new_client w key url\<close> is the exception, if
  any, that the constructor call \<open>OpenAI(api_key=key, base_url=url)\<close> of line 45 raises
  (the library rejects some addresses). \<open>print_error w l\<close> is the exception, if any,
  that the \<open>print\<close> call at line \<open>l\<close> raises (for instance when the console cannot
  encode the text).
\<close>

record world =
  videos_create :: "string \<Rightarrow> string \<Rightarrow> string \<Rightarrow> string \<Rightarrow> exn + video"
  videos_retrieve :: "nat \<Rightarrow> string \<Rightarrow> exn + video"
  videos_download_content :: "string \<Rightarrow> string \<Rightarrow> exn + string"
  path_exists :: "string \<Rightarrow> bool"
  makedirs :: "string \<Rightarrow> exn option"
  write_to_file :: "string \<Rightarrow> string \<Rightarrow> exn option"
  getsize :: "string \<Rightarrow> exn + nat"
  new_client :: "string \<Rightarrow> string \<Rightarrow> exn option"
  print_error :: "nat \<Rightarrow> exn option"

record config =
  api_key :: string
  resource_name :: string
  model_name :: string

section \<open>Configuration (module level)\<close>

text \<open>Python's \<open>not x\<close> for a value that is a string or \<open>None\<close>.\<close>

fun falsy :: "string option \<Rightarrow> bool" where
  "falsy None = True"
| "falsy (Some s) = (s = [])"

definition missing_msg :: string where
  "missing_msg = ''Missing required environment variables. '' @
     ''Please copy .env.sample to .env and populate with your values.''"

definition base_url :: "config \<Rightarrow> string" where
  "base_url cfg = ''https://'' @ resource_name cfg @ ''/openai/v1/''"

text \<open>
  Lines 34 to 48. \<open>env\<close> is the process environment after \<open>load_dotenv()\<close>. The
  check of lines 38 to 42 comes first; then the client object is constructed, which
  makes no remote call but may raise.
\<close>

definition load_config :: "world \<Rightarrow> (string \<Rightarrow> string option) \<Rightarrow> exn + config" where
  "load_config w env =
     (let api_key = env ''AZURE_API_KEY'';
          resource_name = env ''AZURE_RESOURCE_NAME'';
          model_name = env ''AZURE_MODEL_NAME''
      in if falsy api_key \<or> falsy resource_name \<or> falsy model_name
         then Inl (Exn ''ValueError'' missing_msg)
         else (let cfg = \<lparr>api_key = the api_key, resource_name = the resource_name,
                           model_name = the model_name\<rparr>
               in case new_client w (the api_key) (base_url cfg) of
                    Some e \<Rightarrow> Inl e
                  | None \<Rightarrow> Inr cfg))"

definition prompt :: string where
  "prompt = ''Young woman in her 20s, natural lighting, sitting in a cozy bedroom. '' @
     ''She holds up a sleek wireless earbuds case excitedly to the camera. '' @
     ''Authentic selfie-style video. She puts the earbuds in her ears, nods to music, '' @
     ''and gives a thumbs up with a genuine smile. Casual outfit, messy bun hairstyle. '' @
     ''iPhone front camera aesthetic. TikTok style UGC testimonial.''"

definition size_v :: string where
  "size_v = ''720x1280''"

definition seconds :: string where
  "seconds = ''12''"

definition output_dir :: string where
  "output_dir = ''videos''"

section \<open>Request Submitter\<close>

definition generate_video :: "config \<Rightarrow> world \<Rightarrow> history \<Rightarrow> (exn + video) \<times> history" where
  "generate_video cfg w h =
     (let h1 = h @ map Print [65, 66, 67, 68, 69, 70, 71, 72]
                 @ [Create (model_name cfg) prompt size_v seconds]
      in case videos_create w (model_name cfg) prompt size_v seconds of
           Inl e \<Rightarrow> (Inl e, h1)
         | Inr video \<Rightarrow> (Inr video, h1 @ map Print [81, 82, 83, 84, 85]))"

section \<open>Status Poller\<close>

fun is_retrieve :: "event \<Rightarrow> bool" where
  "is_retrieve (Retrieve _) = True"
| "is_retrieve _ = False"

fun is_sleep :: "event \<Rightarrow> bool" where
  "is_sleep (Sleep _) = True"
| "is_sleep _ = False"

fun is_print :: "event \<Rightarrow> bool" where
  "is_print (Print _) = True"
| "is_print _ = False"

definition retrievals :: "history \<Rightarrow> nat" where
  "retrievals h = length (filter is_retrieve h)"

definition sleeps :: "history \<Rightarrow> nat" where
  "sleeps h = length (filter is_sleep h)"

text \<open>The events of a history other than console output.\<close>

definition actions :: "history \<Rightarrow> history" where
  "actions h = filter (\<lambda>e. \<not> is_print e) h"

text \<open>
  One call of \<open>client.videos.retrieve(video_id)\<close>: the remote service answers the
  call according to how many retrievals came before.
\<close>

definition retrieve_call :: "world \<Rightarrow> string \<Rightarrow> history \<Rightarrow> (exn + video) \<times> history" where
  "retrieve_call w video_id h =
     (videos_retrieve w (retrievals h) video_id, h @ [Retrieve video_id])"

definition poll_interval :: nat where
  "poll_interval = 10"

text \<open>The test of the \<open>while\<close> at line 108, negated.\<close>

definition terminal :: "string \<Rightarrow> bool" where
  "terminal s = (s \<in> set [''completed'', ''failed'', ''cancelled''])"

text \<open>
  The \<open>while\<close> loop of lines 108 to 114. The loop has no bound of its own, so the model
  takes fuel: the number of times the body may still run. The result \<open>None\<close> means the
  loop is still running when the fuel is used up, and the history is then the history of
  the run so far.
\<close>

fun poll_loop :: "nat \<Rightarrow> world \<Rightarrow> string \<Rightarrow> video \<Rightarrow> history \<Rightarrow> (exn + video) option \<times> history" where
  "poll_loop 0 w video_id video h =
     (if \<not> terminal (status video) then (None, h) else (Some (Inr video), h))"
| "poll_loop (Suc n) w video_id video h =
     (if \<not> terminal (status video) then
        (case retrieve_call w video_id (h @ [Print 110, Sleep poll_interval]) of
           (Inl e, h') \<Rightarrow> (Some (Inl e), h')
         | (Inr video', h') \<Rightarrow> poll_loop n w video_id video' h')
      else (Some (Inr video), h))"

text \<open>Python's truth value of an optional attribute (\<open>hasattr(v, a) and v.a\<close>).\<close>

definition truthy :: "string option \<Rightarrow> bool" where
  "truthy x = (\<not> falsy x)"

text \<open>The report of lines 119 to 131.\<close>

definition report :: "video \<Rightarrow> history" where
  "report video =
     (if status video = ''completed'' then [Print 120, Print 121]
      else [Print 123, Print 124]
           @ (if truthy (error video) then [Print 127] else [])
           @ (if truthy (failure_reason video) then [Print 129] else [])
           @ [Print 131])"

definition wait_for_completion :: "nat \<Rightarrow> world \<Rightarrow> string \<Rightarrow> history \<Rightarrow> (exn + video) option \<times> history" where
  "wait_for_completion n w video_id h =
     (case retrieve_call w video_id (h @ map Print [95, 96, 97, 98, 99]) of
        (Inl e, h1) \<Rightarrow> (Some (Inl e), h1)
      | (Inr video, h1) \<Rightarrow>
          (case poll_loop n w video_id video (h1 @ [Print 106]) of
             (None, h2) \<Rightarrow> (None, h2)
           | (Some (Inl e), h2) \<Rightarrow> (Some (Inl e), h2)
           | (Some (Inr video'), h2) \<Rightarrow> (Some (Inr video'), h2 @ report video')))"

section \<open>Artifact Downloader\<close>

text \<open>\<open>os.path.join\<close> of two components, as \<open>posixpath\<close> defines it.\<close>

definition path_join :: "string \<Rightarrow> string \<Rightarrow> string" where
  "path_join a b =
     (if take 1 b = ''/'' then b
      else if a = [] \<or> last a = CHR ''/'' then a @ b
      else a @ ''/'' @ b)"

definition download_video :: "world \<Rightarrow> string \<Rightarrow> history \<Rightarrow> (exn + string) \<times> history" where
  "download_video w video_id h =
     (let h1 = h @ map Print [140, 141, 142] @ [PathExists output_dir];
          made = (if \<not> path_exists w output_dir
                  then (case makedirs w output_dir of
                          Some e \<Rightarrow> (Some e, h1 @ [MakeDirs output_dir])
                        | None \<Rightarrow> (None, h1 @ [MakeDirs output_dir, Print 147]))
                  else (None, h1))
      in case made of
           (Some e, h2) \<Rightarrow> (Inl e, h2)
         | (None, h2) \<Rightarrow>
            (let output_file_path = path_join output_dir (video_id @ ''.mp4'');
                 h3 = h2 @ map Print [152, 153, 154, 155, 156]
                         @ [DownloadContent video_id ''video'']
             in case videos_download_content w video_id ''video'' of
                  Inl e \<Rightarrow> (Inl e, h3)
                | Inr content \<Rightarrow>
                   (let h4 = h3 @ [WriteToFile output_file_path]
                    in case write_to_file w output_file_path content of
                         Some e \<Rightarrow> (Inl e, h4)
                       | None \<Rightarrow>
                          (let h5 = h4 @ [Print 164, Print 165, GetSize output_file_path]
                           in case getsize w output_file_path of
                                Inl e \<Rightarrow> (Inl e, h5)
                              | Inr sz \<Rightarrow> (Inr output_file_path, h5 @ [Print 166])))))"

section \<open>Orchestrator\<close>

text \<open>The body of the \<open>try\<close> of \<open>main\<close>, lines 176 to 202.\<close>

definition main_body :: "nat \<Rightarrow> config \<Rightarrow> world \<Rightarrow> history \<Rightarrow> (exn + unit) option \<times> history" where
  "main_body n cfg w h =
     (case generate_video cfg w h of
        (Inl e, h1) \<Rightarrow> (Some (Inl e), h1)
      | (Inr video, h1) \<Rightarrow>
         (let video_id = idv video
          in case wait_for_completion n w video_id h1 of
               (None, h2) \<Rightarrow> (None, h2)
             | (Some (Inl e), h2) \<Rightarrow> (Some (Inl e), h2)
             | (Some (Inr completed_video), h2) \<Rightarrow>
                 if status completed_video = ''completed'' then
                   (case download_video w video_id h2 of
                      (Inl e, h3) \<Rightarrow> (Some (Inl e), h3)
                    | (Inr output_path, h3) \<Rightarrow>
                        (Some (Inr ()), h3 @ map Print [187, 188, 189, 190, 191]))
                 else (Some (Inr ()),
                       h2 @ map Print [193, 194, 195, 196, 197, 198, 199, 200, 201, 202])))"

text \<open>
  Console output that nothing protects: the \<open>print\<close> calls at the given lines, one
  after the other, up to the first that raises.
\<close>

fun prints :: "world \<Rightarrow> nat list \<Rightarrow> history \<Rightarrow> exn option \<times> history" where
  "prints w [] h = (None, h)"
| "prints w (l # ls) h =
     (case print_error w l of
        Some e \<Rightarrow> (Some e, h @ [Print l])
      | None \<Rightarrow> prints w ls (h @ [Print l]))"

text \<open>
  \<open>main\<close>: the \<open>try\<close> with its handler \<open>except Exception\<close>, lines 204 to 211. An
  exception of console output inside the \<open>try\<close> would be one more exception for the
  handler; an exception of the handler's own output leaves \<open>main\<close>.
\<close>

definition main :: "nat \<Rightarrow> config \<Rightarrow> world \<Rightarrow> history \<Rightarrow> (exn + unit) option \<times> history" where
  "main n cfg w h =
     (case main_body n cfg w h of
        (None, h') \<Rightarrow> (None, h')
      | (Some (Inl e), h') \<Rightarrow>
          (case prints w [205, 206, 207, 208, 209, 210, 211] h' of
             (Some e', h'') \<Rightarrow> (Some (Inl e'), h'')
           | (None, h'') \<Rightarrow> (Some (Inr ()), h''))
      | (Some (Inr u), h') \<Rightarrow> (Some (Inr u), h'))"

text \<open>
  The script run as a program: the module-level configuration, then \<open>main()\<close>. An
  exception at module level is not caught by anything.
\<close>

definition program :: "nat \<Rightarrow> (string \<Rightarrow> string option) \<Rightarrow> world \<Rightarrow> (exn + unit) option \<times> history" where
  "program n env w =
     (case load_config w env of
        Inl e \<Rightarrow> (Some (Inl e), [])
      | Inr cfg \<Rightarrow> main n cfg w [])"

text \<open>
  The exit status of the interpreter: 1 after an uncaught exception, 0 when the script
  runs to its end.
\<close>

fun exit_status :: "exn + unit \<Rightarrow> nat" where
  "exit_status (Inl e) = 1"
| "exit_status (Inr u) = 0"

section \<open>Traces of a run\<close>

text \<open>What one pass through the body of the polling loop adds to the history.\<close>

definition iteration :: "string \<Rightarrow> history" where
  "iteration video_id = [Print 110, Sleep poll_interval, Retrieve video_id]"

text \<open>What \<open>wait_for_completion\<close> does before it reaches the loop, lines 95 to 105.\<close>

definition first_check :: "string \<Rightarrow> history" where
  "first_check video_id = map Print [95, 96, 97, 98, 99] @ [Retrieve video_id]"

section \<open>Example collaborators\<close>

definition video_of :: "string \<Rightarrow> string \<Rightarrow> video" where
  "video_of i s = \<lparr>idv = i, status = s, model = ''sora-2'', created_at = 0,
     error = None, failure_reason = None\<rparr>"

text \<open>
  A remote service that answers \<open>create\<close> with \<open>created\<close> and the \<open>k\<close>-th retrieval
  with the \<open>k\<close>-th status of \<open>ss\<close>, and with \<open>queued\<close> once \<open>ss\<close> is used up; the
  download, the file system, the construction of the client and the console succeed.
\<close>

definition remote :: "video \<Rightarrow> string list \<Rightarrow> world" where
  "remote created ss =
     \<lparr>videos_create = (\<lambda>m p sz sec. Inr created),
      videos_retrieve = (\<lambda>k i. Inr (video_of i (if k < length ss then ss ! k else ''queued''))),
      videos_download_content = (\<lambda>i v. Inr ''data''),
      path_exists = (\<lambda>p. False),
      makedirs = (\<lambda>p. None),
      write_to_file = (\<lambda>p c. None),
      getsize = (\<lambda>p. Inr 4),
      new_client = (\<lambda>key url. None),
      print_error = (\<lambda>l. None)\<rparr>"

definition job :: video where
  "job = video_of ''abc123'' ''queued''"

section \<open>Events of the Artifact Downloader\<close>

text \<open>
  The events that only \<open>download_video\<close> produces: its console output (lines 140 to
  166), its file system calls and the remote download. Line 140 is its first statement,
  so a run has such an event exactly when \<open>download_video\<close> was called.
\<close>

fun downloader_event :: "event \<Rightarrow> bool" where
  "downloader_event (Print l) = (140 \<le> l \<and> l \<le> 166)"
| "downloader_event (PathExists p) = True"
| "downloader_event (MakeDirs p) = True"
| "downloader_event (DownloadContent i v) = True"
| "downloader_event (WriteToFile p) = True"
| "downloader_event (GetSize p) = True"
| "downloader_event _ = False"

definition downloader_called :: "history \<Rightarrow> bool" where
  "downloader_called es = list_ex downloader_event es"

section \<open>Example configuration\<close>

definition config_ex :: config where
  "config_ex = \<lparr>api_key = ''secret'', resource_name = ''example.openai.azure.com'',
     model_name = ''sora-2''\<rparr>"

text \<open>A remote service that rejects the creation request.\<close>

definition refusing :: "world \<Rightarrow> world" where
  "refusing w = w\<lparr>videos_create := (\<lambda>m p sz sec. Inl (Exn ''AuthenticationError'' ''401''))\<rparr>"

text \<open>A console that cannot encode the check mark and the cross of lines 81, 120, 123, 164 and 205.\<close>

definition silenced :: "world \<Rightarrow> world" where
  "silenced w = w\<lparr>print_error :=
     (\<lambda>l. if l \<in> set [81, 120, 123, 164, 205]
          then Some (Exn ''UnicodeEncodeError'' ''charmap'') else None)\<rparr>"

text \<open>An environment with the three variables set, and a client library that rejects the address.\<close>

definition env_ex :: "string \<Rightarrow> string option" where
  "env_ex = map_of [(''AZURE_API_KEY'', ''secret''), (''AZURE_RESOURCE_NAME'', ''h:abc''),
     (''AZURE_MODEL_NAME'', ''sora-2'')]"

definition rejecting_address :: "world \<Rightarrow> world" where
  "rejecting_address w = w\<lparr>new_client := (\<lambda>key url. Some (Exn ''InvalidURL'' ''port''))\<rparr>"


section \<open>The polling loop\<close>

lemma retrievals_append: "retrievals (xs @ ys) = retrievals xs + retrievals ys"
  by (simp add: retrievals_def)

lemma sleeps_append: "sleeps (xs @ ys) = sleeps xs + sleeps ys"
  by (simp add: sleeps_def)

lemma actions_append: "actions (xs @ ys) = actions xs @ actions ys"
  by (simp add: actions_def)

lemma poll_loop_terminal:
  "poll_loop n w video_id video h = (Some (Inr video'), h') \<Longrightarrow> terminal (status video')"
  by (induction n arbitrary: video h)
     (auto simp: retrieve_call_def split: if_splits sum.splits)

lemma poll_loop_exit:
  "terminal (status video) \<Longrightarrow> poll_loop n w video_id video h = (Some (Inr video), h)"
  by (cases n) simp_all

lemma poll_loop_step:
  "\<not> terminal (status video) \<Longrightarrow>
   poll_loop (Suc n) w video_id video h =
     (case videos_retrieve w (retrievals h) video_id of
        Inl e \<Rightarrow> (Some (Inl e), h @ iteration video_id)
      | Inr video' \<Rightarrow> poll_loop n w video_id video' (h @ iteration video_id))"
  by (simp add: retrieve_call_def retrievals_def iteration_def split: sum.splits)

lemma poll_loop_trace:
  "\<exists>k\<le>n. snd (poll_loop n w video_id video h) = h @ concat (replicate k (iteration video_id))"
proof (induction n arbitrary: video h)
  case 0
  then show ?case by simp
next
  case (Suc n)
  show ?case
  proof (cases "terminal (status video)")
    case True
    then show ?thesis by (intro exI[of _ 0]) (simp add: poll_loop_exit del: poll_loop.simps)
  next
    case False
    show ?thesis
    proof (cases "videos_retrieve w (retrievals h) video_id")
      case (Inl e)
      with False have "snd (poll_loop (Suc n) w video_id video h) =
          h @ concat (replicate 1 (iteration video_id))"
        by (simp add: poll_loop_step del: poll_loop.simps)
      then show ?thesis by (intro exI[of _ 1]) simp
    next
      case (Inr video')
      from Suc.IH[of video' "h @ iteration video_id"] obtain k where
        k: "k \<le> n" "snd (poll_loop n w video_id video' (h @ iteration video_id)) =
              (h @ iteration video_id) @ concat (replicate k (iteration video_id))"
        by blast
      with False Inr have "snd (poll_loop (Suc n) w video_id video h) =
          h @ concat (replicate (Suc k) (iteration video_id))"
        by (simp add: poll_loop_step del: poll_loop.simps)
      with k(1) show ?thesis by (intro exI[of _ "Suc k"]) simp
    qed
  qed
qed

lemma retrievals_iteration: "retrievals (iteration video_id) = 1"
  by (simp add: retrievals_def iteration_def)

lemma poll_loop_forever:
  "\<not> terminal (status video) \<Longrightarrow>
   (\<forall>k. \<exists>u. videos_retrieve w k video_id = Inr u \<and> \<not> terminal (status u)) \<Longrightarrow>
   fst (poll_loop n w video_id video h) = None"
proof (induction n arbitrary: video h)
  case 0
  then show ?case by simp
next
  case (Suc n)
  from Suc.prems(2) obtain u where
    u: "videos_retrieve w (retrievals h) video_id = Inr u" "\<not> terminal (status u)"
    by blast
  with Suc.prems(1) have "poll_loop (Suc n) w video_id video h =
      poll_loop n w video_id u (h @ iteration video_id)"
    by (simp add: poll_loop_step del: poll_loop.simps)
  with Suc.IH[OF u(2) Suc.prems(2)] show ?case by simp
qed

lemma poll_loop_reach:
  "\<not> terminal (status video) \<Longrightarrow>
   (\<forall>j<k. \<exists>u. videos_retrieve w (retrievals h + j) video_id = Inr u \<and> \<not> terminal (status u)) \<Longrightarrow>
   videos_retrieve w (retrievals h + k) video_id = Inr v \<Longrightarrow> terminal (status v) \<Longrightarrow>
   k < n \<Longrightarrow> fst (poll_loop n w video_id video h) = Some (Inr v)"
proof (induction k arbitrary: n video h)
  case 0
  then obtain m where n: "n = Suc m" by (cases n) auto
  from 0 show ?case unfolding n
    by (simp add: poll_loop_step poll_loop_exit del: poll_loop.simps)
next
  case (Suc k)
  then obtain m where n: "n = Suc m" and m: "k < m" by (cases n) auto
  from Suc.prems(2) obtain u where
    u: "videos_retrieve w (retrievals h) video_id = Inr u" "\<not> terminal (status u)"
    by force
  let ?h = "h @ iteration video_id"
  have r: "retrievals ?h = Suc (retrievals h)"
    by (simp add: retrievals_append retrievals_iteration)
  have a: "\<forall>j<k. \<exists>u. videos_retrieve w (retrievals ?h + j) video_id = Inr u \<and> \<not> terminal (status u)"
  proof (intro allI impI)
    fix j assume "j < k"
    then have "Suc j < Suc k" by simp
    with Suc.prems(2) show "\<exists>u. videos_retrieve w (retrievals ?h + j) video_id = Inr u \<and> \<not> terminal (status u)"
      unfolding r by (metis add_Suc_shift)
  qed
  have b: "videos_retrieve w (retrievals ?h + k) video_id = Inr v"
    using Suc.prems(3) unfolding r by simp
  from Suc.IH[OF u(2) a b Suc.prems(4) m]
  have "fst (poll_loop m w video_id u ?h) = Some (Inr v)" .
  with Suc.prems(1) u show ?case unfolding n
    by (simp add: poll_loop_step del: poll_loop.simps)
qed


lemma wait_for_completion_unfold:
  "wait_for_completion n w video_id h =
     (case videos_retrieve w (retrievals h) video_id of
        Inl e \<Rightarrow> (Some (Inl e), h @ first_check video_id)
      | Inr video \<Rightarrow>
          (case poll_loop n w video_id video (h @ first_check video_id @ [Print 106]) of
             (None, h2) \<Rightarrow> (None, h2)
           | (Some (Inl e), h2) \<Rightarrow> (Some (Inl e), h2)
           | (Some (Inr video'), h2) \<Rightarrow> (Some (Inr video'), h2 @ report video')))"
  by (simp add: wait_for_completion_def retrieve_call_def retrievals_def first_check_def
           split: sum.splits)

lemma retrievals_first_check: "retrievals (h @ first_check video_id @ [Print 106]) = Suc (retrievals h)"
  by (simp add: retrievals_def first_check_def)

lemma actions_report: "actions (report video) = []"
  by (simp add: report_def actions_def)

lemma wait_for_completion_trace:
  "\<exists>k\<le>n. \<exists>ps qs. snd (wait_for_completion n w video_id h) =
      h @ first_check video_id @ ps @ concat (replicate k (iteration video_id)) @ qs
      \<and> actions ps = [] \<and> actions qs = []"
proof (cases "videos_retrieve w (retrievals h) video_id")
  case (Inl e)
  then have "snd (wait_for_completion n w video_id h) =
      h @ first_check video_id @ [] @ concat (replicate 0 (iteration video_id)) @ []"
    by (simp add: wait_for_completion_unfold)
  moreover have "actions [] = []" by (simp add: actions_def)
  ultimately show ?thesis by blast
next
  case (Inr video)
  let ?h = "h @ first_check video_id @ [Print 106]"
  from poll_loop_trace[of n w video_id video ?h] obtain k where
    k: "k \<le> n" "snd (poll_loop n w video_id video ?h) = ?h @ concat (replicate k (iteration video_id))"
    by blast
  obtain r h2 where p: "poll_loop n w video_id video ?h = (r, h2)" by (cases "poll_loop n w video_id video ?h")
  with k(2) have h2: "h2 = ?h @ concat (replicate k (iteration video_id))" by simp
  have "\<exists>qs. snd (wait_for_completion n w video_id h) = h2 @ qs \<and> actions qs = []"
    using Inr p
    by (cases r; simp add: wait_for_completion_unfold actions_report split: sum.splits)
       (simp_all add: actions_def)
  then obtain qs where qs: "snd (wait_for_completion n w video_id h) = h2 @ qs" "actions qs = []"
    by blast
  have "snd (wait_for_completion n w video_id h) =
      h @ first_check video_id @ [Print 106] @ concat (replicate k (iteration video_id)) @ qs"
    using qs(1) h2 by simp
  moreover have "actions [Print 106] = []" by (simp add: actions_def)
  ultimately show ?thesis using k(1) qs(2) by blast
qed

lemma retrievals_iterations: "retrievals (concat (replicate k (iteration video_id))) = k"
  by (induction k) (simp_all add: retrievals_def iteration_def)

lemma sleeps_iterations: "sleeps (concat (replicate k (iteration video_id))) = k"
  by (induction k) (simp_all add: sleeps_def iteration_def)

lemma actions_iterations:
  "actions (concat (replicate k (iteration video_id))) =
     concat (replicate k [Sleep poll_interval, Retrieve video_id])"
  by (induction k) (simp_all add: actions_def iteration_def)

lemma no_actions_count: "actions ps = [] \<Longrightarrow> retrievals ps = 0 \<and> sleeps ps = 0"
  by (induction ps) (auto simp: actions_def retrievals_def sleeps_def split: if_splits elim: is_print.elims)

section \<open>Claims about the Status Poller\<close>

text \<open>
  C1. Whenever \<open>wait_for_completion\<close> returns a video, with whatever fuel, the status
  of that video is one of \<open>completed\<close>, \<open>failed\<close>, \<open>cancelled\<close>.
\<close>

theorem wait_for_completion_terminal:
  "wait_for_completion n w video_id h = (Some (Inr video), h') \<Longrightarrow>
   status video \<in> {''completed'', ''failed'', ''cancelled''}"
proof -
  assume "wait_for_completion n w video_id h = (Some (Inr video), h')"
  then obtain v0 h1 h2 where "poll_loop n w video_id v0 h1 = (Some (Inr video), h2)"
    by (auto simp: wait_for_completion_def split: prod.splits sum.splits option.splits)
  then have "terminal (status video)" by (rule poll_loop_terminal)
  then show ?thesis by (simp add: terminal_def)
qed

theorem wait_for_completion_terminal_witness:
  "wait_for_completion 2 (remote job [''queued'', ''queued'', ''completed'']) ''abc123'' [] =
     (Some (Inr (video_of ''abc123'' ''completed'')),
      first_check ''abc123'' @ [Print 106] @ iteration ''abc123'' @ iteration ''abc123''
        @ [Print 120, Print 121])
   \<and> status (video_of ''abc123'' ''completed'') \<in> {''completed'', ''failed'', ''cancelled''}"
proof -
  have run: "wait_for_completion 2 (remote job [''queued'', ''queued'', ''completed'']) ''abc123'' [] =
     (Some (Inr (video_of ''abc123'' ''completed'')),
      first_check ''abc123'' @ [Print 106] @ iteration ''abc123'' @ iteration ''abc123''
        @ [Print 120, Print 121])"
    by (simp add: wait_for_completion_def retrieve_call_def retrievals_def remote_def
          video_of_def terminal_def report_def first_check_def iteration_def numeral_2_eq_2)
  from wait_for_completion_terminal[OF run] run show ?thesis by simp
qed


text \<open>
  C3, as amended. Every pass through the loop either leaves the loop at once, because the
  status is terminal, doing nothing, or it does exactly one suspension of 10 seconds
  followed by exactly one retrieval, in that order, and then tests again. So what a run of
  the loop does, apart from console output, is a number of repetitions of: sleep 10,
  retrieve. (The claim has the two in the opposite order.)
\<close>

theorem poll_loop_iteration:
  "(terminal (status video) \<longrightarrow> poll_loop n w video_id video h = (Some (Inr video), h))
   \<and> (\<not> terminal (status video) \<longrightarrow>
        poll_loop (Suc n) w video_id video h =
          (case videos_retrieve w (retrievals h) video_id of
             Inl e \<Rightarrow> (Some (Inl e), h @ [Print 110, Sleep 10, Retrieve video_id])
           | Inr video' \<Rightarrow>
               poll_loop n w video_id video' (h @ [Print 110, Sleep 10, Retrieve video_id])))
   \<and> (\<exists>k\<le>n. actions (drop (length h) (snd (poll_loop n w video_id video h))) =
                concat (replicate k [Sleep 10, Retrieve video_id]))"
proof (intro conjI impI)
  assume "terminal (status video)"
  then show "poll_loop n w video_id video h = (Some (Inr video), h)"
    by (rule poll_loop_exit)
next
  assume "\<not> terminal (status video)"
  then show "poll_loop (Suc n) w video_id video h =
          (case videos_retrieve w (retrievals h) video_id of
             Inl e \<Rightarrow> (Some (Inl e), h @ [Print 110, Sleep 10, Retrieve video_id])
           | Inr video' \<Rightarrow>
               poll_loop n w video_id video' (h @ [Print 110, Sleep 10, Retrieve video_id]))"
    using poll_loop_step[of video "n" w video_id h]
    unfolding iteration_def poll_interval_def by simp
next
  from poll_loop_trace[of n w video_id video h] obtain k where
    k: "k \<le> n" "snd (poll_loop n w video_id video h) = h @ concat (replicate k (iteration video_id))"
    by blast
  have "actions (drop (length h) (snd (poll_loop n w video_id video h))) =
      concat (replicate k [Sleep 10, Retrieve video_id])"
    unfolding k(2) by (simp add: actions_iterations poll_interval_def)
  with k(1) show "\<exists>k\<le>n. actions (drop (length h) (snd (poll_loop n w video_id video h))) =
                concat (replicate k [Sleep 10, Retrieve video_id])"
    by blast
qed

text \<open>
  A run of the loop against a remote service that answers the second retrieval with
  \<open>completed\<close>: one pass, a sleep and then a retrieval.
\<close>

lemma run_example:
  "poll_loop (Suc 0) (remote job [''queued'', ''completed'']) ''abc123'' job [Retrieve ''abc123''] =
     (Some (Inr (video_of ''abc123'' ''completed'')),
      [Retrieve ''abc123'', Print 110, Sleep 10, Retrieve ''abc123''])"
  by (simp add: retrieve_call_def retrievals_def remote_def job_def
        video_of_def terminal_def poll_interval_def)

theorem poll_loop_iteration_witness:
  "\<not> terminal (status job)
   \<and> poll_loop (Suc 0) (remote job [''queued'', ''completed'']) ''abc123'' job [Retrieve ''abc123''] =
       (Some (Inr (video_of ''abc123'' ''completed'')),
        [Retrieve ''abc123'', Print 110, Sleep 10, Retrieve ''abc123''])
   \<and> terminal (status (video_of ''abc123'' ''completed''))
   \<and> poll_loop 0 (remote job [''queued'', ''completed'']) ''abc123'' (video_of ''abc123'' ''completed'')
        [Retrieve ''abc123'', Print 110, Sleep 10, Retrieve ''abc123''] =
       (Some (Inr (video_of ''abc123'' ''completed'')),
        [Retrieve ''abc123'', Print 110, Sleep 10, Retrieve ''abc123''])"
proof -
  have nt: "\<not> terminal (status job)"
    by (simp add: job_def video_of_def terminal_def)
  have t: "terminal (status (video_of ''abc123'' ''completed''))"
    by (simp add: video_of_def terminal_def)
  have r: "videos_retrieve (remote job [''queued'', ''completed'']) (retrievals [Retrieve ''abc123'']) ''abc123''
      = Inr (video_of ''abc123'' ''completed'')"
    by (simp add: remote_def retrievals_def)
  note it = poll_loop_iteration[of job 0 "remote job [''queued'', ''completed'']" "''abc123''" "[Retrieve ''abc123'']"]
  note ex = poll_loop_iteration[of "video_of ''abc123'' ''completed''" 0 "remote job [''queued'', ''completed'']"
      "''abc123''" "[Retrieve ''abc123'', Print 110, Sleep 10, Retrieve ''abc123'']"]
  from it nt r have "poll_loop (Suc 0) (remote job [''queued'', ''completed'']) ''abc123'' job [Retrieve ''abc123''] =
      poll_loop 0 (remote job [''queued'', ''completed'']) ''abc123'' (video_of ''abc123'' ''completed'')
        [Retrieve ''abc123'', Print 110, Sleep 10, Retrieve ''abc123'']"
    by (simp del: poll_loop.simps)
  moreover from ex t have "poll_loop 0 (remote job [''queued'', ''completed'']) ''abc123'' (video_of ''abc123'' ''completed'')
        [Retrieve ''abc123'', Print 110, Sleep 10, Retrieve ''abc123''] =
       (Some (Inr (video_of ''abc123'' ''completed'')),
        [Retrieve ''abc123'', Print 110, Sleep 10, Retrieve ''abc123''])"
    by (simp del: poll_loop.simps)
  ultimately show ?thesis using nt t by (simp del: poll_loop.simps)
qed

text \<open>
  C3 as stated fails: in the run above the loop is entered with a status that is not
  terminal, and its one pass sleeps first and retrieves second.
\<close>

theorem poll_loop_order_counterexample:
  "\<not> terminal (status job)
   \<and> actions (drop (Suc 0) (snd (poll_loop (Suc 0) (remote job [''queued'', ''completed'']) ''abc123'' job
        [Retrieve ''abc123'']))) = [Sleep 10, Retrieve ''abc123'']
   \<and> [Sleep 10, Retrieve ''abc123''] \<noteq> [Retrieve ''abc123'', Sleep 10]"
proof -
  have "\<not> terminal (status job)"
    by (simp add: job_def video_of_def terminal_def)
  then show ?thesis
    by (simp add: run_example actions_def del: poll_loop.simps)
qed

text \<open>
  C4. In every run of \<open>wait_for_completion\<close>, finished or cut short after any number
  of passes through the loop, and whatever the remote service answers, the history the
  run adds begins with console output only, followed by the first retrieval: no sleep
  and no other retrieval comes before it.
\<close>

theorem first_retrieval_before_sleep:
  "\<exists>pre es. snd (wait_for_completion n w video_id h) = h @ pre @ Retrieve video_id # es
     \<and> sleeps pre = 0 \<and> retrievals pre = 0"
proof -
  from wait_for_completion_trace[of n w video_id h] obtain k ps qs where
    "snd (wait_for_completion n w video_id h) =
      h @ first_check video_id @ ps @ concat (replicate k (iteration video_id)) @ qs"
    by blast
  then have "snd (wait_for_completion n w video_id h) =
      h @ map Print [95, 96, 97, 98, 99] @ Retrieve video_id # (ps @ concat (replicate k (iteration video_id)) @ qs)"
    by (simp add: first_check_def)
  moreover have "sleeps (map Print [95, 96, 97, 98, 99]) = 0 \<and> retrievals (map Print [95, 96, 97, 98, 99]) = 0"
    by (simp add: sleeps_def retrievals_def)
  ultimately show ?thesis by blast
qed

lemma wait_for_completion_counts:
  "retrievals (drop (length h) (snd (wait_for_completion n w video_id h))) =
     Suc (sleeps (drop (length h) (snd (wait_for_completion n w video_id h))))"
proof -
  from wait_for_completion_trace[of n w video_id h] obtain k ps qs where
    t: "snd (wait_for_completion n w video_id h) =
      h @ first_check video_id @ ps @ concat (replicate k (iteration video_id)) @ qs"
    and ps: "actions ps = []" and qs: "actions qs = []"
    by blast
  have fc: "retrievals (first_check video_id) = 1" "sleeps (first_check video_id) = 0"
    by (simp_all add: retrievals_def sleeps_def first_check_def)
  show ?thesis unfolding t
    using no_actions_count[OF ps] no_actions_count[OF qs] fc
    by (simp add: retrievals_append sleeps_append retrievals_iterations sleeps_iterations)
qed

lemma wait_for_completion_immediate:
  "videos_retrieve w (retrievals h) video_id = Inr v \<Longrightarrow> terminal (status v) \<Longrightarrow>
   wait_for_completion n w video_id h =
     (Some (Inr v), h @ first_check video_id @ [Print 106] @ report v)"
  by (simp add: wait_for_completion_unfold poll_loop_exit del: poll_loop.simps)

text \<open>
  C10. In every run of \<open>wait_for_completion\<close> that ends (by returning or by raising),
  the number of retrievals is the number of sleeps plus one; and when the first retrieval
  answers with a terminal status, the run returns that video after exactly one retrieval
  and no sleep.
\<close>

theorem retrievals_one_more_than_sleeps:
  "(wait_for_completion n w video_id h = (Some r, h') \<longrightarrow>
      retrievals (drop (length h) h') = sleeps (drop (length h) h') + 1)
   \<and> (videos_retrieve w (retrievals h) video_id = Inr v \<and> terminal (status v) \<longrightarrow>
        fst (wait_for_completion n w video_id h) = Some (Inr v)
        \<and> retrievals (drop (length h) (snd (wait_for_completion n w video_id h))) = 1
        \<and> sleeps (drop (length h) (snd (wait_for_completion n w video_id h))) = 0)"
proof (intro conjI impI)
  assume "wait_for_completion n w video_id h = (Some r, h')"
  then have "snd (wait_for_completion n w video_id h) = h'" by simp
  with wait_for_completion_counts[of h n w video_id]
  show "retrievals (drop (length h) h') = sleeps (drop (length h) h') + 1" by simp
next
  assume a: "videos_retrieve w (retrievals h) video_id = Inr v \<and> terminal (status v)"
  then have e: "wait_for_completion n w video_id h =
     (Some (Inr v), h @ first_check video_id @ [Print 106] @ report v)"
    by (simp add: wait_for_completion_immediate)
  show "fst (wait_for_completion n w video_id h) = Some (Inr v)" by (simp add: e)
  have "actions (report v) = []" by (rule actions_report)
  from no_actions_count[OF this]
  show "retrievals (drop (length h) (snd (wait_for_completion n w video_id h))) = 1"
    and "sleeps (drop (length h) (snd (wait_for_completion n w video_id h))) = 0"
    by (simp_all add: e retrievals_append sleeps_append)
       (simp_all add: retrievals_def sleeps_def first_check_def)
qed

theorem retrievals_one_more_than_sleeps_witness:
  "wait_for_completion 2 (remote job [''queued'', ''queued'', ''completed'']) ''abc123'' [] =
     (Some (Inr (video_of ''abc123'' ''completed'')),
      first_check ''abc123'' @ [Print 106] @ iteration ''abc123'' @ iteration ''abc123''
        @ [Print 120, Print 121])
   \<and> retrievals (first_check ''abc123'' @ [Print 106] @ iteration ''abc123'' @ iteration ''abc123''
        @ [Print 120, Print 121]) = 3
   \<and> sleeps (first_check ''abc123'' @ [Print 106] @ iteration ''abc123'' @ iteration ''abc123''
        @ [Print 120, Print 121]) = 2"
proof -
  let ?h = "first_check ''abc123'' @ [Print 106] @ iteration ''abc123'' @ iteration ''abc123''
        @ [Print 120, Print 121]"
  have run: "wait_for_completion 2 (remote job [''queued'', ''queued'', ''completed'']) ''abc123'' [] =
     (Some (Inr (video_of ''abc123'' ''completed'')), ?h)"
    by (simp add: wait_for_completion_def retrieve_call_def retrievals_def remote_def
          video_of_def terminal_def report_def first_check_def iteration_def numeral_2_eq_2)
  have s: "sleeps ?h = 2"
    by (simp add: sleeps_def first_check_def iteration_def)
  from retrievals_one_more_than_sleeps[of 2 "remote job [''queued'', ''queued'', ''completed'']"
      "''abc123''" "[]" "Inr (video_of ''abc123'' ''completed'')" ?h] run
  have "retrievals ?h = sleeps ?h + 1" by simp
  with s run show ?thesis by simp
qed


lemma wait_for_completion_reach:
  assumes v: "videos_retrieve w (retrievals h + k) video_id = Inr v" "terminal (status v)"
    and before: "\<forall>j<k. \<exists>u. videos_retrieve w (retrievals h + j) video_id = Inr u \<and> \<not> terminal (status u)"
    and n: "k \<le> n"
  shows "fst (wait_for_completion n w video_id h) = Some (Inr v)"
proof (cases k)
  case 0
  with v show ?thesis by (simp add: wait_for_completion_immediate)
next
  case (Suc k')
  let ?h = "h @ first_check video_id @ [Print 106]"
  from before Suc obtain u where
    u: "videos_retrieve w (retrievals h) video_id = Inr u" "\<not> terminal (status u)"
    by force
  have a: "\<forall>j<k'. \<exists>u. videos_retrieve w (retrievals ?h + j) video_id = Inr u \<and> \<not> terminal (status u)"
  proof (intro allI impI)
    fix j assume "j < k'"
    then have "Suc j < k" using Suc by simp
    with before show "\<exists>u. videos_retrieve w (retrievals ?h + j) video_id = Inr u \<and> \<not> terminal (status u)"
      unfolding retrievals_first_check by (metis add_Suc_shift)
  qed
  have b: "videos_retrieve w (retrievals ?h + k') video_id = Inr v"
    using v(1) Suc unfolding retrievals_first_check by simp
  have "k' < n" using n Suc by simp
  from poll_loop_reach[OF u(2) a b v(2) this]
  have "fst (poll_loop n w video_id u ?h) = Some (Inr v)" .
  then obtain h2 where "poll_loop n w video_id u ?h = (Some (Inr v), h2)"
    by (cases "poll_loop n w video_id u ?h") simp
  with u(1) show ?thesis by (simp add: wait_for_completion_unfold del: poll_loop.simps)
qed










section \<open>Claims about the Orchestrator\<close>

lemma downloader_called_append:
  "downloader_called (xs @ ys) = (downloader_called xs \<or> downloader_called ys)"
  by (simp add: downloader_called_def)

lemma generate_video_events:
  "\<exists>es. snd (generate_video cfg w h) = h @ es \<and> \<not> downloader_called es"
proof (cases "videos_create w (model_name cfg) prompt size_v seconds")
  case (Inl e)
  let ?es = "map Print [65, 66, 67, 68, 69, 70, 71, 72] @ [Create (model_name cfg) prompt size_v seconds]"
  from Inl have "snd (generate_video cfg w h) = h @ ?es"
    by (simp add: generate_video_def Let_def)
  moreover have "\<not> downloader_called ?es" by (simp add: downloader_called_def)
  ultimately show ?thesis by blast
next
  case (Inr video)
  let ?es = "map Print [65, 66, 67, 68, 69, 70, 71, 72] @ [Create (model_name cfg) prompt size_v seconds]
     @ map Print [81, 82, 83, 84, 85]"
  from Inr have "snd (generate_video cfg w h) = h @ ?es"
    by (simp add: generate_video_def Let_def)
  moreover have "\<not> downloader_called ?es" by (simp add: downloader_called_def)
  ultimately show ?thesis by blast
qed

lemma iterations_no_download:
  "\<not> downloader_called (concat (replicate k (iteration video_id)))"
  by (induction k) (simp_all add: downloader_called_def iteration_def)

lemma report_no_download: "\<not> downloader_called (report video)"
  by (simp add: report_def downloader_called_def)

lemma first_check_no_download: "\<not> downloader_called (first_check video_id)"
  by (simp add: first_check_def downloader_called_def)

lemma wait_for_completion_events:
  "\<exists>es. snd (wait_for_completion n w video_id h) = h @ es \<and> \<not> downloader_called es"
proof (cases "videos_retrieve w (retrievals h) video_id")
  case (Inl e)
  then have "snd (wait_for_completion n w video_id h) = h @ first_check video_id"
    by (simp add: wait_for_completion_unfold)
  with first_check_no_download show ?thesis by blast
next
  case (Inr video)
  let ?h = "h @ first_check video_id @ [Print 106]"
  from poll_loop_trace[of n w video_id video ?h] obtain k where
    k: "snd (poll_loop n w video_id video ?h) = ?h @ concat (replicate k (iteration video_id))"
    by blast
  obtain r h2 where p: "poll_loop n w video_id video ?h = (r, h2)"
    by (cases "poll_loop n w video_id video ?h")
  with k have h2: "h2 = ?h @ concat (replicate k (iteration video_id))" by simp
  have "\<exists>qs. snd (wait_for_completion n w video_id h) = h2 @ qs \<and> \<not> downloader_called qs"
    using Inr p
    by (cases r; simp add: wait_for_completion_unfold report_no_download split: sum.splits)
       (simp_all add: downloader_called_def)
  then obtain qs where qs: "snd (wait_for_completion n w video_id h) = h2 @ qs" "\<not> downloader_called qs"
    by blast
  have "snd (wait_for_completion n w video_id h) =
      h @ (first_check video_id @ [Print 106] @ concat (replicate k (iteration video_id)) @ qs)"
    using qs(1) h2 by simp
  moreover have "\<not> downloader_called (first_check video_id @ [Print 106] @ concat (replicate k (iteration video_id)) @ qs)"
    using qs(2) first_check_no_download[of video_id] iterations_no_download[of k video_id]
    by (simp add: downloader_called_append) (simp add: downloader_called_def)
  ultimately show ?thesis by blast
qed

lemma download_video_events:
  "\<exists>es. snd (download_video w video_id h) = h @ Print 140 # es"
  by (simp add: download_video_def Let_def split: option.splits sum.splits)

lemma prints_events:
  "\<exists>es. snd (prints w ls h) = h @ es \<and> set es \<subseteq> Print ` set ls"
proof (induction ls arbitrary: h)
  case Nil
  then show ?case by simp
next
  case (Cons l ls)
  show ?case
  proof (cases "print_error w l")
    case (Some e)
    then have "snd (prints w (l # ls) h) = h @ [Print l]" by simp
    then show ?thesis by auto
  next
    case None
    from Cons.IH[of "h @ [Print l]"] obtain es where
      es: "snd (prints w ls (h @ [Print l])) = (h @ [Print l]) @ es" "set es \<subseteq> Print ` set ls"
      by blast
    with None have "snd (prints w (l # ls) h) = h @ (Print l # es)" by simp
    moreover have "set (Print l # es) \<subseteq> Print ` set (l # ls)" using es(2) by auto
    ultimately show ?thesis by blast
  qed
qed

lemma prints_succeed:
  "\<forall>l\<in>set ls. print_error w l = None \<Longrightarrow> prints w ls h = (None, h @ map Print ls)"
  by (induction ls arbitrary: h) simp_all

lemma handler_no_download:
  "\<exists>es. snd (prints w [205, 206, 207, 208, 209, 210, 211] h) = h @ es \<and> \<not> downloader_called es"
proof -
  from prints_events[of w "[205, 206, 207, 208, 209, 210, 211]" h] obtain es where
    es: "snd (prints w [205, 206, 207, 208, 209, 210, 211] h) = h @ es"
        "set es \<subseteq> Print ` set [205, 206, 207, 208, 209, 210, 211]"
    by blast
  from es(2) have "\<forall>e\<in>set es. \<not> downloader_event e" by auto
  then have "\<not> downloader_called es" by (simp add: downloader_called_def list_ex_iff)
  with es(1) show ?thesis by blast
qed

lemma called_140: "downloader_called (Print 140 # es)"
  by (simp add: downloader_called_def)

lemma main_running:
  "main_body n cfg w h = (None, h') \<Longrightarrow> main n cfg w h = (None, h')"
  by (simp add: main_def)

lemma main_returns:
  "main_body n cfg w h = (Some (Inr u), h') \<Longrightarrow> main n cfg w h = (Some (Inr u), h')"
  by (simp add: main_def)

lemma main_handles:
  "main_body n cfg w h = (Some (Inl e), h') \<Longrightarrow>
   main n cfg w h =
     (case prints w [205, 206, 207, 208, 209, 210, 211] h' of
        (Some e', h'') \<Rightarrow> (Some (Inl e'), h'')
      | (None, h'') \<Rightarrow> (Some (Inr ()), h''))"
  by (simp add: main_def)

lemma main_history:
  "\<exists>es. snd (main n cfg w h) = snd (main_body n cfg w h) @ es \<and> \<not> downloader_called es"
proof -
  obtain r hb where b: "main_body n cfg w h = (r, hb)" by (cases "main_body n cfg w h")
  have nil: "\<not> downloader_called []" by (simp add: downloader_called_def)
  show ?thesis
  proof (cases r)
    case None
    with b have "snd (main n cfg w h) = hb @ []" by (simp add: main_running)
    with b nil show ?thesis by auto
  next
    case (Some x)
    show ?thesis
    proof (cases x)
      case (Inr u)
      with b Some have "snd (main n cfg w h) = hb @ []" by (simp add: main_returns)
      with b nil show ?thesis by auto
    next
      case (Inl e)
      from handler_no_download[of w hb] obtain es where
        es: "snd (prints w [205, 206, 207, 208, 209, 210, 211] hb) = hb @ es"
            "\<not> downloader_called es"
        by blast
      from b Some Inl have "snd (main n cfg w h) = snd (prints w [205, 206, 207, 208, 209, 210, 211] hb)"
        by (simp add: main_handles split: prod.splits option.splits)
      with es b show ?thesis by auto
    qed
  qed
qed

text \<open>The history of \<open>main\<close>, stage by stage.\<close>

lemma main_generate_raises:
  "generate_video cfg w h = (Inl e, h1) \<Longrightarrow>
   main_body n cfg w h = (Some (Inl e), h1)"
  by (simp add: main_body_def)

lemma main_wait_running:
  "generate_video cfg w h = (Inr video, h1) \<Longrightarrow>
   wait_for_completion n w (idv video) h1 = (None, h2) \<Longrightarrow>
   main_body n cfg w h = (None, h2)"
  by (simp add: main_body_def)

lemma main_wait_raises:
  "generate_video cfg w h = (Inr video, h1) \<Longrightarrow>
   wait_for_completion n w (idv video) h1 = (Some (Inl e), h2) \<Longrightarrow>
   main_body n cfg w h = (Some (Inl e), h2)"
  by (simp add: main_body_def)

lemma main_not_completed:
  "generate_video cfg w h = (Inr video, h1) \<Longrightarrow>
   wait_for_completion n w (idv video) h1 = (Some (Inr cv), h2) \<Longrightarrow>
   status cv \<noteq> ''completed'' \<Longrightarrow>
   main_body n cfg w h =
     (Some (Inr ()), h2 @ map Print [193, 194, 195, 196, 197, 198, 199, 200, 201, 202])"
  by (simp add: main_body_def)

lemma main_download_raises:
  "generate_video cfg w h = (Inr video, h1) \<Longrightarrow>
   wait_for_completion n w (idv video) h1 = (Some (Inr cv), h2) \<Longrightarrow>
   status cv = ''completed'' \<Longrightarrow>
   download_video w (idv video) h2 = (Inl e, h3) \<Longrightarrow>
   main_body n cfg w h = (Some (Inl e), h3)"
  by (simp add: main_body_def)

lemma main_downloaded:
  "generate_video cfg w h = (Inr video, h1) \<Longrightarrow>
   wait_for_completion n w (idv video) h1 = (Some (Inr cv), h2) \<Longrightarrow>
   status cv = ''completed'' \<Longrightarrow>
   download_video w (idv video) h2 = (Inr p, h3) \<Longrightarrow>
   main_body n cfg w h = (Some (Inr ()), h3 @ map Print [187, 188, 189, 190, 191])"
  by (simp add: main_body_def)

lemma main_download_iff:
  "downloader_called (drop (length h) (snd (main n cfg w h))) \<longleftrightarrow>
     (\<exists>video h1 cv h2. generate_video cfg w h = (Inr video, h1)
        \<and> wait_for_completion n w (idv video) h1 = (Some (Inr cv), h2)
        \<and> status cv = ''completed'')"
proof -
  obtain g h1 where g: "generate_video cfg w h = (g, h1)" by (cases "generate_video cfg w h")
  from generate_video_events[of cfg w h] g obtain e1 where
    e1: "h1 = h @ e1" "\<not> downloader_called e1" by auto
  from main_history[of n cfg w h] obtain e5 where
    e5: "snd (main n cfg w h) = snd (main_body n cfg w h) @ e5" "\<not> downloader_called e5"
    by blast
  show ?thesis
  proof (cases g)
    case (Inl e)
    with g have "main_body n cfg w h = (Some (Inl e), h1)"
      by (simp add: main_generate_raises)
    with e1 e5 g Inl show ?thesis
      by (simp add: downloader_called_append)
  next
    case (Inr video)
    note gv = g[unfolded Inr]
    obtain r h2 where r: "wait_for_completion n w (idv video) h1 = (r, h2)"
      by (cases "wait_for_completion n w (idv video) h1")
    from wait_for_completion_events[of n w "idv video" h1] r obtain e2 where
      e2: "h2 = h1 @ e2" "\<not> downloader_called e2" by auto
    show ?thesis
    proof (cases r)
      case None
      with gv r have "main_body n cfg w h = (None, h2)"
        by (simp add: main_wait_running)
      with e1 e2 e5 gv r None show ?thesis
        by (simp add: downloader_called_append)
    next
      case (Some x)
      show ?thesis
      proof (cases x)
        case (Inl e)
        with gv r Some have "main_body n cfg w h = (Some (Inl e), h2)"
          by (simp add: main_wait_raises)
        with e1 e2 e5 gv r Some Inl show ?thesis
          by (simp add: downloader_called_append)
      next
        case (Inr cv)
        note rv = r[unfolded Some Inr]
        show ?thesis
        proof (cases "status cv = ''completed''")
          case False
          with gv rv have "main_body n cfg w h =
              (Some (Inr ()), h2 @ map Print [193, 194, 195, 196, 197, 198, 199, 200, 201, 202])"
            by (simp add: main_not_completed)
          with e1 e2 e5 gv rv False show ?thesis
            by (simp add: downloader_called_def)
        next
          case True
          obtain d h3 where d: "download_video w (idv video) h2 = (d, h3)"
            by (cases "download_video w (idv video) h2")
          from download_video_events[of w "idv video" h2] d obtain e3 where
            e3: "h3 = h2 @ Print 140 # e3" by auto
          have "\<exists>e4. snd (main_body n cfg w h) = h3 @ e4"
            using gv rv True d
            by (cases d) (simp_all add: main_download_raises main_downloaded)
          then obtain e4 where "snd (main n cfg w h) = h @ e1 @ e2 @ (Print 140 # e3) @ e4 @ e5"
            using e1 e2 e3 e5 by auto
          then have "downloader_called (drop (length h) (snd (main n cfg w h)))"
            by (simp add: downloader_called_append called_140)
          with gv rv True show ?thesis by blast
        qed
      qed
    qed
  qed
qed

text \<open>
  C2. In every run of \<open>main\<close>, finished or still polling, \<open>download_video\<close> is
  called exactly when the poller returned a video whose status is \<open>completed\<close>. In
  particular, when the poller returns with status \<open>failed\<close> or \<open>cancelled\<close>, the run
  contains no event of the downloader at all.
\<close>

theorem download_iff_completed:
  "(downloader_called (drop (length h) (snd (main n cfg w h))) \<longleftrightarrow>
     (\<exists>video h1 cv h2. generate_video cfg w h = (Inr video, h1)
        \<and> wait_for_completion n w (idv video) h1 = (Some (Inr cv), h2)
        \<and> status cv = ''completed''))
   \<and> (generate_video cfg w h = (Inr video, h1)
        \<and> wait_for_completion n w (idv video) h1 = (Some (Inr cv), h2)
        \<and> status cv \<in> {''failed'', ''cancelled''}
      \<longrightarrow> \<not> downloader_called (drop (length h) (snd (main n cfg w h))))"
proof (intro conjI impI)
  show "downloader_called (drop (length h) (snd (main n cfg w h))) \<longleftrightarrow>
     (\<exists>video h1 cv h2. generate_video cfg w h = (Inr video, h1)
        \<and> wait_for_completion n w (idv video) h1 = (Some (Inr cv), h2)
        \<and> status cv = ''completed'')"
    by (rule main_download_iff)
next
  assume a: "generate_video cfg w h = (Inr video, h1)
        \<and> wait_for_completion n w (idv video) h1 = (Some (Inr cv), h2)
        \<and> status cv \<in> {''failed'', ''cancelled''}"
  then have "status cv \<noteq> ''completed''" by auto
  with a show "\<not> downloader_called (drop (length h) (snd (main n cfg w h)))"
    unfolding main_download_iff by auto
qed

theorem download_iff_completed_witness:
  "generate_video config_ex (remote job [''queued'', ''failed'']) [] =
     (Inr job, snd (generate_video config_ex (remote job [''queued'', ''failed'']) []))
   \<and> wait_for_completion 1 (remote job [''queued'', ''failed'']) (idv job)
        (snd (generate_video config_ex (remote job [''queued'', ''failed'']) [])) =
     (Some (Inr (video_of ''abc123'' ''failed'')),
      snd (wait_for_completion 1 (remote job [''queued'', ''failed'']) (idv job)
        (snd (generate_video config_ex (remote job [''queued'', ''failed'']) []))))
   \<and> status (video_of ''abc123'' ''failed'') \<in> {''failed'', ''cancelled''}
   \<and> \<not> downloader_called (snd (main 1 config_ex (remote job [''queued'', ''failed'']) []))"
proof -
  let ?w = "remote job [''queued'', ''failed'']"
  let ?hg = "snd (generate_video config_ex ?w [])"
  have g: "generate_video config_ex ?w [] = (Inr job, ?hg)"
    by (simp add: generate_video_def remote_def)
  have r: "retrievals ?hg = 0"
    by (simp add: generate_video_def remote_def retrievals_def)
  have v: "videos_retrieve ?w (retrievals ?hg + 1) (idv job) = Inr (video_of ''abc123'' ''failed'')"
    unfolding r by (simp add: remote_def job_def video_of_def)
  have t: "terminal (status (video_of ''abc123'' ''failed''))"
    by (simp add: video_of_def terminal_def)
  have b: "\<forall>j<1. \<exists>u. videos_retrieve ?w (retrievals ?hg + j) (idv job) = Inr u \<and> \<not> terminal (status u)"
    unfolding r by (simp add: remote_def video_of_def terminal_def)
  from wait_for_completion_reach[OF v t b order_refl]
  have "fst (wait_for_completion 1 ?w (idv job) ?hg) = Some (Inr (video_of ''abc123'' ''failed''))" .
  then have wt: "wait_for_completion 1 ?w (idv job) ?hg =
      (Some (Inr (video_of ''abc123'' ''failed'')), snd (wait_for_completion 1 ?w (idv job) ?hg))"
    by (cases "wait_for_completion 1 ?w (idv job) ?hg") simp
  have st: "status (video_of ''abc123'' ''failed'') \<in> {''failed'', ''cancelled''}"
    by (simp add: video_of_def)
  note c = download_iff_completed[of "[]" 1 config_ex ?w job ?hg "video_of ''abc123'' ''failed''"
      "snd (wait_for_completion 1 ?w (idv job) ?hg)", THEN conjunct2, rule_format]
  from c[OF conjI[OF g conjI[OF wt st]]]
  have "\<not> downloader_called (snd (main 1 config_ex ?w []))" by simp
  with g wt st show ?thesis by blast
qed

text \<open>
  C9, as amended. An exception raised by a stage, whether it comes from
  \<open>generate_video\<close>, from \<open>wait_for_completion\<close> or from \<open>download_video\<close>, reaches
  the handler of \<open>main\<close>. When the handler's console output of lines 205 to 211 raises
  nothing, \<open>main\<close> prints it and returns: it then never ends with an exception, and a
  program whose module-level configuration succeeded exits with status 0 whenever it
  ends, whatever the outcome of the pipeline.
\<close>

lemma main_never_raises:
  assumes ok: "\<forall>l\<in>set [205, 206, 207, 208, 209, 210, 211]. print_error w l = None"
  shows "fst (main n cfg w h) \<noteq> Some (Inl e)"
proof -
  obtain r hb where b: "main_body n cfg w h = (r, hb)" by (cases "main_body n cfg w h")
  show ?thesis
  proof (cases r)
    case None
    with b show ?thesis by (simp add: main_running)
  next
    case (Some x)
    with b show ?thesis
      by (cases x) (simp_all add: main_returns main_handles prints_succeed[OF ok] del: prints.simps)
  qed
qed

theorem main_catches_every_error:
  "(\<forall>e h1. generate_video cfg w h = (Inl e, h1) \<longrightarrow>
        main_body n cfg w h = (Some (Inl e), h1))
   \<and> (\<forall>video h1 e h2. generate_video cfg w h = (Inr video, h1)
          \<and> wait_for_completion n w (idv video) h1 = (Some (Inl e), h2) \<longrightarrow>
        main_body n cfg w h = (Some (Inl e), h2))
   \<and> (\<forall>video h1 cv h2 e h3. generate_video cfg w h = (Inr video, h1)
          \<and> wait_for_completion n w (idv video) h1 = (Some (Inr cv), h2)
          \<and> status cv = ''completed''
          \<and> download_video w (idv video) h2 = (Inl e, h3) \<longrightarrow>
        main_body n cfg w h = (Some (Inl e), h3))
   \<and> ((\<forall>l\<in>set [205, 206, 207, 208, 209, 210, 211]. print_error w l = None) \<longrightarrow>
        (\<forall>e. fst (main n cfg w h) \<noteq> Some (Inl e))
        \<and> (\<forall>e hb. main_body n cfg w h = (Some (Inl e), hb) \<longrightarrow>
             main n cfg w h = (Some (Inr ()), hb @ map Print [205, 206, 207, 208, 209, 210, 211]))
        \<and> (\<forall>env r h'. load_config w env = Inr cfg \<and> program n env w = (Some r, h') \<longrightarrow>
             r = Inr () \<and> exit_status r = 0))"
proof (intro conjI allI impI)
  fix e h1
  assume "generate_video cfg w h = (Inl e, h1)"
  then show "main_body n cfg w h = (Some (Inl e), h1)"
    by (rule main_generate_raises)
next
  fix video h1 e h2
  assume "generate_video cfg w h = (Inr video, h1)
          \<and> wait_for_completion n w (idv video) h1 = (Some (Inl e), h2)"
  then show "main_body n cfg w h = (Some (Inl e), h2)"
    by (simp add: main_wait_raises)
next
  fix video h1 cv h2 e h3
  assume "generate_video cfg w h = (Inr video, h1)
          \<and> wait_for_completion n w (idv video) h1 = (Some (Inr cv), h2)
          \<and> status cv = ''completed''
          \<and> download_video w (idv video) h2 = (Inl e, h3)"
  then show "main_body n cfg w h = (Some (Inl e), h3)"
    by (simp add: main_download_raises)
next
  fix e
  assume ok: "\<forall>l\<in>set [205, 206, 207, 208, 209, 210, 211]. print_error w l = None"
  show "fst (main n cfg w h) \<noteq> Some (Inl e)"
    by (rule main_never_raises[OF ok])
next
  fix e hb
  assume ok: "\<forall>l\<in>set [205, 206, 207, 208, 209, 210, 211]. print_error w l = None"
    and "main_body n cfg w h = (Some (Inl e), hb)"
  then show "main n cfg w h = (Some (Inr ()), hb @ map Print [205, 206, 207, 208, 209, 210, 211])"
    by (simp add: main_handles prints_succeed[OF ok] del: prints.simps)
next
  fix env r h'
  assume ok: "\<forall>l\<in>set [205, 206, 207, 208, 209, 210, 211]. print_error w l = None"
    and a: "load_config w env = Inr cfg \<and> program n env w = (Some r, h')"
  from a have "load_config w env = Inr cfg" and "program n env w = (Some r, h')" by simp_all
  then have m: "main n cfg w [] = (Some r, h')" by (simp add: program_def)
  show "r = Inr ()"
  proof (cases r)
    case (Inl e)
    with m main_never_raises[OF ok, of n cfg "[]" e] show ?thesis by simp
  next
    case (Inr u)
    then show ?thesis by simp
  qed
  then show "exit_status r = 0" by simp
qed

theorem main_catches_every_error_witness:
  "generate_video config_ex (refusing (remote job [])) [] =
     (Inl (Exn ''AuthenticationError'' ''401''),
      map Print [65, 66, 67, 68, 69, 70, 71, 72] @ [Create ''sora-2'' prompt size_v seconds])
   \<and> print_error (refusing (remote job [])) 205 = None
   \<and> main 0 config_ex (refusing (remote job [])) [] =
     (Some (Inr ()),
      map Print [65, 66, 67, 68, 69, 70, 71, 72] @ [Create ''sora-2'' prompt size_v seconds]
        @ map Print [205, 206, 207, 208, 209, 210, 211])"
proof -
  let ?w = "refusing (remote job [])"
  let ?h = "map Print [65, 66, 67, 68, 69, 70, 71, 72] @ [Create ''sora-2'' prompt size_v seconds]"
  have g: "generate_video config_ex ?w [] = (Inl (Exn ''AuthenticationError'' ''401''), ?h)"
    by (simp add: generate_video_def refusing_def remote_def config_ex_def)
  have ok: "\<forall>l\<in>set [205, 206, 207, 208, 209, 210, 211]. print_error ?w l = None"
    by (simp add: refusing_def remote_def)
  note t = main_catches_every_error[of config_ex ?w "[]" 0]
  from t g have "main_body 0 config_ex ?w [] = (Some (Inl (Exn ''AuthenticationError'' ''401'')), ?h)"
    by blast
  with t ok have "main 0 config_ex ?w [] = (Some (Inr ()), ?h @ map Print [205, 206, 207, 208, 209, 210, 211])"
    by blast
  with g ok show ?thesis by simp
qed

text \<open>
  C9 as stated fails. When the creation request is rejected and the console cannot
  encode the cross of line 205, the handler's first \<open>print\<close> raises, \<open>main\<close> ends with
  that exception and the exit status is 1. And when the construction of the client at
  line 45 raises, the program ends before \<open>main\<close>, also with exit status 1.
\<close>

theorem main_propagates_counterexample:
  "main 0 config_ex (silenced (refusing (remote job []))) [] =
     (Some (Inl (Exn ''UnicodeEncodeError'' ''charmap'')),
      map Print [65, 66, 67, 68, 69, 70, 71, 72] @ [Create ''sora-2'' prompt size_v seconds]
        @ [Print 205])
   \<and> exit_status (Inl (Exn ''UnicodeEncodeError'' ''charmap'')) = 1
   \<and> program 0 env_ex (rejecting_address (remote job [])) =
        (Some (Inl (Exn ''InvalidURL'' ''port'')), [])
   \<and> exit_status (Inl (Exn ''InvalidURL'' ''port'')) = 1"
proof -
  have "main_body 0 config_ex (silenced (refusing (remote job []))) [] =
     (Some (Inl (Exn ''AuthenticationError'' ''401'')),
      map Print [65, 66, 67, 68, 69, 70, 71, 72] @ [Create ''sora-2'' prompt size_v seconds])"
    by (simp add: main_body_def generate_video_def silenced_def refusing_def remote_def config_ex_def)
  then have "main 0 config_ex (silenced (refusing (remote job []))) [] =
     (Some (Inl (Exn ''UnicodeEncodeError'' ''charmap'')),
      map Print [65, 66, 67, 68, 69, 70, 71, 72] @ [Create ''sora-2'' prompt size_v seconds]
        @ [Print 205])"
    by (simp add: main_handles) (simp add: silenced_def)
  moreover have "program 0 env_ex (rejecting_address (remote job [])) =
        (Some (Inl (Exn ''InvalidURL'' ''port'')), [])"
    by (simp add: program_def load_config_def env_ex_def rejecting_address_def)
  ultimately show ?thesis by simp
qed

section \<open>Claims about the configuration, the Submitter and the Downloader\<close>

text \<open>
  C6. If one of the three required environment variables is absent, the program ends at
  module level with the \<open>ValueError\<close> of line 39 (the configuration error of the
  specification), and the history of the whole run is empty: no remote call was made.
\<close>

theorem missing_configuration_fails_first:
  "env ''AZURE_API_KEY'' = None \<or> env ''AZURE_RESOURCE_NAME'' = None \<or> env ''AZURE_MODEL_NAME'' = None \<Longrightarrow>
   program n env w = (Some (Inl (Exn ''ValueError'' missing_msg)), [])"
  by (auto simp: program_def load_config_def Let_def)

theorem missing_configuration_fails_first_witness:
  "map_of [(''AZURE_API_KEY'', ''secret''), (''AZURE_MODEL_NAME'', ''sora-2'')] ''AZURE_RESOURCE_NAME'' = None
   \<and> program 5 (map_of [(''AZURE_API_KEY'', ''secret''), (''AZURE_MODEL_NAME'', ''sora-2'')])
        (remote job [''completed'']) = (Some (Inl (Exn ''ValueError'' missing_msg)), [])"
proof -
  have a: "map_of [(''AZURE_API_KEY'', ''secret''), (''AZURE_MODEL_NAME'', ''sora-2'')] ''AZURE_RESOURCE_NAME'' = None"
    by simp
  then have "map_of [(''AZURE_API_KEY'', ''secret''), (''AZURE_MODEL_NAME'', ''sora-2'')] ''AZURE_API_KEY'' = None
      \<or> map_of [(''AZURE_API_KEY'', ''secret''), (''AZURE_MODEL_NAME'', ''sora-2'')] ''AZURE_RESOURCE_NAME'' = None
      \<or> map_of [(''AZURE_API_KEY'', ''secret''), (''AZURE_MODEL_NAME'', ''sora-2'')] ''AZURE_MODEL_NAME'' = None"
    by blast
  from missing_configuration_fails_first[OF this, of 5 "remote job [''completed'']"] a
  show ?thesis by blast
qed



lemma path_join_relative:
  "take 1 video_id \<noteq> ''/'' \<Longrightarrow>
   path_join output_dir (video_id @ ''.mp4'') = ''videos/'' @ video_id @ ''.mp4''"
  by (cases video_id) (simp_all add: path_join_def output_dir_def)

lemma download_video_path:
  "fst (download_video w video_id h) = Inr p \<Longrightarrow> p = path_join output_dir (video_id @ ''.mp4'')"
  by (auto simp: download_video_def Let_def split: if_splits option.splits sum.splits)

lemma download_video_writes:
  "WriteToFile p \<in> set (drop (length h) (snd (download_video w video_id h))) \<Longrightarrow>
   p = path_join output_dir (video_id @ ''.mp4'')"
  by (auto simp: download_video_def Let_def split: if_splits option.splits sum.splits)

lemma download_video_succeeds:
  assumes "path_exists w output_dir \<or> makedirs w output_dir = None"
    and "videos_download_content w video_id ''video'' = Inr c"
    and "write_to_file w (path_join output_dir (video_id @ ''.mp4'')) c = None"
    and "getsize w (path_join output_dir (video_id @ ''.mp4'')) = Inr sz"
  shows "fst (download_video w video_id h) = Inr (path_join output_dir (video_id @ ''.mp4''))"
    and "WriteToFile (path_join output_dir (video_id @ ''.mp4''))
           \<in> set (drop (length h) (snd (download_video w video_id h)))"
  using assms by (auto simp: download_video_def Let_def split: option.splits)

lemma download_video_inside_output_dir:
  "take 1 video_id \<noteq> ''/'' \<Longrightarrow> fst (download_video w video_id h) = Inr p \<Longrightarrow>
   p = ''videos/'' @ video_id @ ''.mp4''"
  using download_video_path[of w video_id h p] path_join_relative[of video_id] by simp

text \<open>
  C8. The claim holds for \<open>abc123\<close> and for every identifier that does not begin with a
  slash (the lemmas above), but the code breaks it otherwise: for the identifier
  \<open>/tmp/x\<close>, \<open>os.path.join\<close> at line 150 drops the output directory, so
  \<open>download_video\<close> creates the directory \<open>videos\<close> and then writes to and returns
  \<open>/tmp/x.mp4\<close>, a path outside of it, although its docstring says that the video is
  downloaded to the videos folder with the identifier as file name.
\<close>

theorem download_video_leaves_output_dir:
  "download_video (remote job []) ''/tmp/x'' [] =
     (Inr ''/tmp/x.mp4'',
      [Print 140, Print 141, Print 142, PathExists ''videos'', MakeDirs ''videos'', Print 147,
       Print 152, Print 153, Print 154, Print 155, Print 156,
       DownloadContent ''/tmp/x'' ''video'', WriteToFile ''/tmp/x.mp4'',
       Print 164, Print 165, GetSize ''/tmp/x.mp4'', Print 166])
   \<and> ''/tmp/x.mp4'' \<noteq> output_dir @ ''/'' @ ''/tmp/x'' @ ''.mp4''
   \<and> take (length (output_dir @ ''/'')) ''/tmp/x.mp4'' \<noteq> output_dir @ ''/''"
  by (simp add: download_video_def Let_def path_join_def remote_def output_dir_def)

end
